theory Spec2Isabelle
  imports Main "HOL-Library.Sublist" "HOL-Library.Multiset"
begin

section \<open>Supervised word sense disambiguation: the notebook \<open>SupervisedWSD/NaiveBayes.ipynb\<close>\<close>

text \<open>
  The notebook is a sequence of cells run top to bottom. Each cell that computes something
  is embedded below as a function of the values it reads. Python strings are HOL strings,
  a character standing for the code point of the same number: the strings of the model
  are those over U+0000 to U+00FF, and the Senseval data is ASCII. Python lists and tuples
  are HOL lists, an exception is the \<open>Inl\<close> branch of a sum, and the outcome of
  \<open>random.shuffle\<close> is an argument.
\<close>

subsection \<open>Python list operations\<close>

datatype py_error = IndexError

text \<open>
  A slice bound \<open>i\<close> on a list of length \<open>n\<close>: a negative bound counts from the end, and
  every bound is clamped to the range \<open>0..n\<close>.
\<close>

definition slice_bound :: "int \<Rightarrow> nat \<Rightarrow> nat" where
  "slice_bound i n = (if i < 0 then nat (int n + i) else min (nat i) n)"

text \<open>\<open>xs[i:]\<close> and \<open>xs[:i]\<close>.\<close>

definition slice_from :: "'a list \<Rightarrow> int \<Rightarrow> 'a list" where
  "slice_from xs i = drop (slice_bound i (length xs)) xs"

definition slice_to :: "'a list \<Rightarrow> int \<Rightarrow> 'a list" where
  "slice_to xs i = take (slice_bound i (length xs)) xs"

text \<open>
  \<open>xs[i]\<close>: an index from 0 up reads from the front, an index from -1 down reads from
  the back, and an index beyond either end raises IndexError.
\<close>

definition py_get :: "'a list \<Rightarrow> int \<Rightarrow> py_error + 'a" where
  "py_get xs i =
     (if 0 \<le> i \<and> i < int (length xs) then Inr (xs ! nat i)
      else if i < 0 \<and> - int (length xs) \<le> i then Inr (xs ! nat (int (length xs) + i))
      else Inl IndexError)"

text \<open>\<open>a in b\<close> on two strings: \<open>a\<close> occurs in \<open>b\<close> as a contiguous run.\<close>

fun str_contains :: "string \<Rightarrow> string \<Rightarrow> bool" where
  "str_contains [] a = (a = [])"
| "str_contains (c # b) a = (prefix a (c # b) \<or> str_contains b a)"

subsection \<open>Instances and the corpus loader (cell 6)\<close>

text \<open>
  The corpus reader gives \<open>senses\<close> as a tuple of sense ids; the loader overwrites the
  field with a single sense id, a string. The field therefore holds either.
\<close>

datatype senses_val = SenseTuple "string list" | SenseStr string

record senseval_instance =
  inst_word :: string
  inst_position :: int
  inst_context :: "(string \<times> string) list"
  inst_senses :: senses_val

text \<open>\<open>for sense in senses\<close>: a tuple yields its elements, a string its characters.\<close>

fun iter_senses :: "senses_val \<Rightarrow> string list" where
  "iter_senses (SenseTuple ss) = ss"
| "iter_senses (SenseStr s) = map (\<lambda>c. [c]) s"

text \<open>
  The list \<open>instances\<close> holds references. The objects live in a heap, a list indexed by
  address; \<open>copy.deepcopy\<close> allocates a fresh object at the end of the heap, and
  \<open>temp_instance.senses = sense\<close> updates the object in place.
\<close>

record loader =
  heap :: "senseval_instance list"
  instances :: "nat list"
  labels_classes :: "(string \<times> string) list"

text \<open>The inner loop \<open>for sense in senses\<close>, with \<open>temp_instance\<close> the address of the copy.\<close>

fun sense_loop :: "senseval_instance \<Rightarrow> nat \<Rightarrow> string list \<Rightarrow> loader \<Rightarrow> loader" where
  "sense_loop i temp_instance [] st = st"
| "sense_loop i temp_instance (sense # rest) st =
     sense_loop i temp_instance rest
       (st\<lparr>heap := (heap st)[temp_instance :=
                 (heap st ! temp_instance)\<lparr>inst_senses := SenseStr sense\<rparr>],
           instances := instances st @ [temp_instance],
           labels_classes := labels_classes st @ [(inst_word i, sense)]\<rparr>)"

text \<open>The body of \<open>for i in senseval.instances(file)\<close>: one deep copy, then the inner loop.\<close>

definition load_instance :: "senseval_instance \<Rightarrow> loader \<Rightarrow> loader" where
  "load_instance i st =
     (let senses = inst_senses i;
          temp_instance = length (heap st);
          st' = st\<lparr>heap := heap st @ [i]\<rparr>
      in sense_loop i temp_instance (iter_senses senses) st')"

fun load_file :: "senseval_instance list \<Rightarrow> loader \<Rightarrow> loader" where
  "load_file [] st = st"
| "load_file (i # rest) st = load_file rest (load_instance i st)"

fun load_files :: "senseval_instance list list \<Rightarrow> loader \<Rightarrow> loader" where
  "load_files [] st = st"
| "load_files (file # rest) st = load_files rest (load_file file st)"

definition load_data :: "senseval_instance list list \<Rightarrow> loader" where
  "load_data files_list = load_files files_list \<lparr>heap = [], instances = [], labels_classes = []\<rparr>"

text \<open>What a later cell reads when it iterates \<open>instances\<close>: each reference, dereferenced.\<close>

definition loaded_instances :: "loader \<Rightarrow> senseval_instance list" where
  "loaded_instances st = map (\<lambda>a. heap st ! a) (instances st)"

subsection \<open>The per-word split (cell 23) and the merged split (cell 31)\<close>

text \<open>
  \<open>int(len(xs)*0.2)\<close>: the double nearest to 0.2 exceeds 1/5 by one part in \<open>2^54\<close>, less
  than half a unit in the last place of the product, so for every length a list can have
  the product truncates to \<open>len(xs) div 5\<close>.
\<close>

definition fifth :: "nat \<Rightarrow> nat" where
  "fifth n = n div 5"

text \<open>
  The tail of the body of \<open>for label in label_sets\<close>: \<open>feature_sets\<close> is shuffled, then
  sliced. The result is \<open>(training_set, test_set)\<close>.
\<close>

definition split_feature_sets :: "('a list \<Rightarrow> 'a list) \<Rightarrow> 'a list \<Rightarrow> 'a list \<times> 'a list" where
  "split_feature_sets shuffle feature_sets =
     (let feature_sets = shuffle feature_sets;
          sample = fifth (length feature_sets);
          training_set = drop (sample + 1) feature_sets;
          test_set = take sample feature_sets
      in (training_set, test_set))"

text \<open>
  A dictionary keeps its keys in insertion order: an association list. \<open>d[key]\<close> on a
  \<open>defaultdict(dict)\<close> gives the empty dictionary for a missing key, which iterates as
  the empty sequence.
\<close>

type_synonym ('k, 'v) dict = "('k \<times> 'v list) list"

definition dict_keys :: "('k, 'v) dict \<Rightarrow> 'k list" where
  "dict_keys d = remdups (map fst d)"

definition dict_get :: "('k, 'v) dict \<Rightarrow> 'k \<Rightarrow> 'v list" where
  "dict_get d key = (case map_of d key of None \<Rightarrow> [] | Some v \<Rightarrow> v)"

text \<open>\<open>for key in d.keys(): acc += [i for i in d[key]]\<close>.\<close>

definition sub_set :: "('k, 'v) dict \<Rightarrow> 'v list" where
  "sub_set d = concat (map (dict_get d) (dict_keys d))"

text \<open>Cell 31. The result is \<open>(train_set, test_set)\<close>.\<close>

definition merged_split ::
  "('v list \<Rightarrow> 'v list) \<Rightarrow> ('k, 'v) dict \<Rightarrow> ('k, 'v) dict \<Rightarrow> 'v list \<times> 'v list" where
  "merged_split shuffle train_set_per_class test_set_per_class =
     (let sub_train_set = sub_set train_set_per_class;
          sub_test_set = sub_set test_set_per_class;
          total = shuffle (sub_train_set @ sub_test_set);
          divide = fifth (length total);
          train_set = drop divide total;
          test_set = take divide total
      in (train_set, test_set))"

subsection \<open>Tokenising a context (cell 11)\<close>

text \<open>
  Character classes, by code point. \<open>is_word_char\<close> is the regular expression class
  \<open>\w\<close> on a Python string: the underscore and every alphanumeric code point, which up
  to U+00FF are the ASCII digits and letters, the ordinal indicators, the micro sign, the
  superscript digits, the fractions and the accented letters. \<open>is_space_char\<close> is \<open>\s\<close>:
  the ASCII whitespace and separators, the next-line control and the no-break space.
  \<open>is_punctuation\<close> is membership in \<open>string.punctuation\<close>.
\<close>

definition is_word_char :: "char \<Rightarrow> bool" where
  "is_word_char c =
     (let n = (of_char c :: nat)
      in (48 \<le> n \<and> n \<le> 57) \<or> (65 \<le> n \<and> n \<le> 90) \<or> n = 95 \<or> (97 \<le> n \<and> n \<le> 122) \<or>
         n = 170 \<or> n = 178 \<or> n = 179 \<or> n = 181 \<or> n = 185 \<or> n = 186 \<or>
         (188 \<le> n \<and> n \<le> 190) \<or> (192 \<le> n \<and> n \<le> 214) \<or> (216 \<le> n \<and> n \<le> 246) \<or>
         (248 \<le> n \<and> n \<le> 255))"

definition is_space_char :: "char \<Rightarrow> bool" where
  "is_space_char c =
     (let n = (of_char c :: nat)
      in (9 \<le> n \<and> n \<le> 13) \<or> (28 \<le> n \<and> n \<le> 32) \<or> n = 133 \<or> n = 160)"

definition is_punctuation :: "char \<Rightarrow> bool" where
  "is_punctuation c =
     (let n = (of_char c :: nat)
      in (33 \<le> n \<and> n \<le> 47) \<or> (58 \<le> n \<and> n \<le> 64) \<or> (91 \<le> n \<and> n \<le> 96) \<or>
         (123 \<le> n \<and> n \<le> 126))"

text \<open>A character that is neither \<open>\w\<close> nor \<open>\s\<close>: the class \<open>[^\w\s]\<close>.\<close>

definition is_punct_char :: "char \<Rightarrow> bool" where
  "is_punct_char c = (\<not> is_word_char c \<and> \<not> is_space_char c)"

text \<open>
  \<open>WordPunctTokenizer().tokenize(s)\<close>: every match of \<open>\w+|[^\w\s]+\<close> in \<open>s\<close>, left to
  right; each match is a longest run of one class, and whitespace is skipped.
\<close>

function wordpunct_tokenize :: "string \<Rightarrow> string list" where
  "wordpunct_tokenize [] = []"
| "wordpunct_tokenize (c # cs) =
     (if is_word_char c then
        (c # takeWhile is_word_char cs) # wordpunct_tokenize (dropWhile is_word_char cs)
      else if is_punct_char c then
        (c # takeWhile is_punct_char cs) # wordpunct_tokenize (dropWhile is_punct_char cs)
      else wordpunct_tokenize cs)"
  by pat_completeness auto
termination
  by (relation "measure length") (auto simp: length_dropWhile_le less_Suc_eq_le)

text \<open>
  \<open>s.lower()\<close> and \<open>s.translate(translator)\<close>, which deletes the punctuation. Up to
  U+00FF the capitals are \<open>A\<close> to \<open>Z\<close> and the accented capitals U+00C0 to U+00DE without
  the multiplication sign, each 32 below its small letter.
\<close>

definition lower_char :: "char \<Rightarrow> char" where
  "lower_char c =
     (let n = (of_char c :: nat)
      in if (65 \<le> n \<and> n \<le> 90) \<or> (192 \<le> n \<and> n \<le> 214) \<or> (216 \<le> n \<and> n \<le> 222)
         then char_of (n + 32) else c)"

definition lower :: "string \<Rightarrow> string" where
  "lower s = map lower_char s"

definition translate :: "string \<Rightarrow> string" where
  "translate s = filter (\<lambda>c. \<not> is_punctuation c) s"

text \<open>
  The loop of \<open>tokenize\<close>, with \<open>tokenized_text\<close> as accumulator. The list \<open>filters\<close> the
  cell defines is not read anywhere.
\<close>

fun tokenize_loop :: "(string \<times> string) list \<Rightarrow> (string \<times> string) list \<Rightarrow>
    py_error + (string \<times> string) list" where
  "tokenize_loop tokenized_text [] = Inr tokenized_text"
| "tokenize_loop tokenized_text (w # text) =
     (case py_get (wordpunct_tokenize (fst w)) 0 of
        Inl e \<Rightarrow> Inl e
      | Inr t \<Rightarrow>
          (let word = lower t;
               norm_word = translate word
           in tokenize_loop
                (if length norm_word \<ge> 1 then tokenized_text @ [(norm_word, snd w)]
                 else tokenized_text) text))"

definition tokenize :: "(string \<times> string) list \<Rightarrow> py_error + (string \<times> string) list" where
  "tokenize text = tokenize_loop [] text"

subsection \<open>The context window (cell 13)\<close>

definition extract_context :: "int \<Rightarrow> (string \<times> string) list \<Rightarrow> int \<Rightarrow>
    py_error + ((string \<times> string) list \<times> (string \<times> string) list)" where
  "extract_context target_position text context =
     (let text_wo_target_left = slice_to text target_position;
          text_wo_target_right = slice_from text (target_position + 1)
      in case tokenize text_wo_target_left of
           Inl e \<Rightarrow> Inl e
         | Inr text_wo_target_left \<Rightarrow>
             (case tokenize text_wo_target_right of
                Inl e \<Rightarrow> Inl e
              | Inr text_wo_target_right \<Rightarrow>
                  Inr (slice_from text_wo_target_left (- context),
                       slice_to text_wo_target_right context)))"

subsection \<open>The feature record (cell 17)\<close>

record features =
  feat_word :: string
  feat_co_occ :: "nat list"
  feat_context :: "string list"
  feat_pos_context :: "string list"

text \<open>\<open>s.split('.')[0]\<close>: the part of \<open>s\<close> before its first dot, all of \<open>s\<close> when it has none.\<close>

definition split_dot_first :: "string \<Rightarrow> string" where
  "split_dot_first s = takeWhile (\<lambda>c. c \<noteq> CHR ''.'') s"

definition extract_features :: "string \<Rightarrow> (string \<times> string) list \<Rightarrow> (string \<times> string) list \<Rightarrow>
    string list \<Rightarrow> features" where
  "extract_features targetword left_ctxt right_ctxt co_occ_vector =
     (let context_text = map fst left_ctxt @ map fst right_ctxt;
          context_pos = map snd left_ctxt @ map snd right_ctxt;
          co_occurence_features = map (\<lambda>i. if i \<in> set context_text then 1 else 0) co_occ_vector
      in \<lparr>feat_word = split_dot_first targetword,
          feat_co_occ = co_occurence_features,
          feat_context = context_text,
          feat_pos_context = context_pos\<rparr>)"

subsection \<open>The co-occurrence vocabulary (cell 19)\<close>

text \<open>
  \<open>FreqDist\<close> is a \<open>Counter\<close>: a dictionary from sample to count that keeps its keys in
  the order of their first insertion (the dictionaries of Python 3.7 and later).
\<close>

fun counter_add :: "'a \<Rightarrow> ('a \<times> nat) list \<Rightarrow> ('a \<times> nat) list" where
  "counter_add x [] = [(x, 1)]"
| "counter_add x ((k, n) # d) = (if k = x then (k, n + 1) # d else (k, n) # counter_add x d)"

definition FreqDist :: "'a list \<Rightarrow> ('a \<times> nat) list" where
  "FreqDist samples = foldl (\<lambda>d x. counter_add x d) [] samples"

text \<open>
  \<open>most_common(n)\<close> is \<open>sorted(items, key=count, reverse=True)[:n]\<close>: a stable sort, so
  items of equal count stay in dictionary order.
\<close>

definition most_common :: "nat \<Rightarrow> ('a \<times> nat) list \<Rightarrow> ('a \<times> nat) list" where
  "most_common n dist = take n (sort_key (\<lambda>kv. - int (snd kv)) dist)"

text \<open>
  \<open>[i[0] for i in ctxt if i[0] not in stopwords.words('english') and len(i[0]) > 1]\<close>;
  the stopword list of the toolkit is an argument.
\<close>

definition content_lemmas :: "string list \<Rightarrow> (string \<times> string) list \<Rightarrow> string list" where
  "content_lemmas stopwords ctxt =
     map fst (filter (\<lambda>i. fst i \<notin> set stopwords \<and> length (fst i) > 1) ctxt)"

text \<open>The loop \<open>for instance in instances\<close> of one class word, accumulating \<open>lemmas_for_class\<close>.\<close>

fun lemmas_loop :: "string list \<Rightarrow> int \<Rightarrow> string \<Rightarrow> string list \<Rightarrow> senseval_instance list \<Rightarrow>
    py_error + string list" where
  "lemmas_loop stopwords context classword lemmas_for_class [] = Inr lemmas_for_class"
| "lemmas_loop stopwords context classword lemmas_for_class (inst # rest) =
     (if classword = inst_word inst then
        (case extract_context (inst_position inst) (inst_context inst) context of
           Inl e \<Rightarrow> Inl e
         | Inr (left_context, right_context) \<Rightarrow>
             lemmas_loop stopwords context classword
               (lemmas_for_class @ content_lemmas stopwords left_context
                                 @ content_lemmas stopwords right_context) rest)
      else lemmas_loop stopwords context classword lemmas_for_class rest)"

text \<open>The body of \<open>for classword in ...\<close>: the vocabulary stored for one class word.\<close>

definition cooccurrences :: "string list \<Rightarrow> int \<Rightarrow> nat \<Rightarrow> senseval_instance list \<Rightarrow> string \<Rightarrow>
    py_error + string list" where
  "cooccurrences stopwords context num_co_ocurrences insts classword =
     (case lemmas_loop stopwords context classword [] insts of
        Inl e \<Rightarrow> Inl e
      | Inr lemmas_for_class \<Rightarrow>
          (let dist = FreqDist lemmas_for_class;
               cooccurrences = map fst (most_common num_co_ocurrences dist)
           in Inr (take num_co_ocurrences cooccurrences)))"

text \<open>The dictionary \<open>co_occurrences_per_classword\<close>, over the class words in iteration order.\<close>

fun co_occurrences_per_classword :: "string list \<Rightarrow> int \<Rightarrow> nat \<Rightarrow> senseval_instance list \<Rightarrow>
    string list \<Rightarrow> py_error + (string, string) dict" where
  "co_occurrences_per_classword stopwords context num_co_ocurrences insts [] = Inr []"
| "co_occurrences_per_classword stopwords context num_co_ocurrences insts (classword # rest) =
     (case cooccurrences stopwords context num_co_ocurrences insts classword of
        Inl e \<Rightarrow> Inl e
      | Inr v \<Rightarrow>
          (case co_occurrences_per_classword stopwords context num_co_ocurrences insts rest of
             Inl e \<Rightarrow> Inl e
           | Inr d \<Rightarrow> Inr ((classword, v) # d)))"

subsection \<open>The feature sets of one label (cell 23)\<close>

text \<open>\<open>label_sense in instance.senses\<close>: membership in a tuple, containment in a string.\<close>

fun senses_contains :: "senses_val \<Rightarrow> string \<Rightarrow> bool" where
  "senses_contains (SenseTuple ss) label_sense = (label_sense \<in> set ss)"
| "senses_contains (SenseStr s) label_sense = str_contains s label_sense"

definition selects :: "string \<times> string \<Rightarrow> senseval_instance \<Rightarrow> bool" where
  "selects label inst =
     (let label_word = fst label; label_sense = snd label
      in label_word = inst_word inst \<and> senses_contains (inst_senses inst) label_sense)"

text \<open>The loop \<open>for instance in instances\<close> of one label, accumulating \<open>feature_sets\<close>.\<close>

fun feature_sets_loop :: "int \<Rightarrow> (string, string) dict \<Rightarrow> string \<times> string \<Rightarrow>
    (features \<times> (string \<times> string)) list \<Rightarrow> senseval_instance list \<Rightarrow>
    py_error + (features \<times> (string \<times> string)) list" where
  "feature_sets_loop context co_occ label feature_sets [] = Inr feature_sets"
| "feature_sets_loop context co_occ label feature_sets (inst # rest) =
     (if selects label inst then
        (case py_get (inst_context inst) (inst_position inst) of
           Inl e \<Rightarrow> Inl e
         | Inr tok \<Rightarrow>
             (let word = fst tok
              in case extract_context (inst_position inst) (inst_context inst) context of
                   Inl e \<Rightarrow> Inl e
                 | Inr (left, right) \<Rightarrow>
                     feature_sets_loop context co_occ label
                       (feature_sets @
                          [(extract_features word left right (dict_get co_occ (fst label)), label)])
                       rest))
      else feature_sets_loop context co_occ label feature_sets rest)"

subsection \<open>Notions used to state the properties\<close>

text \<open>
  The lemma portion of a target word as the specification describes it: the target word
  with the part-of-speech suffix after the separator removed, \<open>hard-a\<close> giving \<open>hard\<close>.
\<close>

definition lemma_portion :: "string \<Rightarrow> string" where
  "lemma_portion target_word = takeWhile (\<lambda>c. c \<noteq> CHR ''-'') target_word"

text \<open>
  The leading run of a token: after any leading whitespace, the longest run of word
  characters if the token starts with one, else the longest run of characters that are
  neither word characters nor whitespace.
\<close>

definition leading_run :: "string \<Rightarrow> string" where
  "leading_run t =
     (case dropWhile is_space_char t of
        [] \<Rightarrow> []
      | c # cs \<Rightarrow> if is_word_char c then c # takeWhile is_word_char cs
                  else c # takeWhile is_punct_char cs)"



text \<open>ASCII strings, and contexts all of whose tokens are ASCII.\<close>

definition is_ascii :: "string \<Rightarrow> bool" where
  "is_ascii s = list_all (\<lambda>c. (of_char c :: nat) < 128) s"

definition ascii_context :: "(string \<times> string) list \<Rightarrow> bool" where
  "ascii_context ctxt = list_all (\<lambda>w. is_ascii (fst w)) ctxt"






text \<open>
  A feature record with its label belongs to an instance: the label is the given one, and
  the record is extracted from the token at the target position, the two windows of the
  instance and the vocabulary stored for the word of the label.
\<close>

definition is_record_of :: "int \<Rightarrow> (string, string) dict \<Rightarrow> string \<times> string \<Rightarrow>
    features \<times> (string \<times> string) \<Rightarrow> senseval_instance \<Rightarrow> bool" where
  "is_record_of context co_occ label f inst =
     (snd f = label \<and>
      (\<exists>tok left right.
         py_get (inst_context inst) (inst_position inst) = Inr tok \<and>
         extract_context (inst_position inst) (inst_context inst) context = Inr (left, right) \<and>
         fst f = extract_features (fst tok) left right (dict_get co_occ (fst label))))"

section \<open>Properties\<close>

subsection \<open>The per-word split\<close>

lemma split_feature_sets_sizes:
  assumes "length (shuffle feature_sets) = length feature_sets" and "feature_sets \<noteq> []"
  shows "length (fst (split_feature_sets shuffle feature_sets))
           + length (snd (split_feature_sets shuffle feature_sets)) + 1 = length feature_sets"
proof -
  have "fifth (length feature_sets) < length feature_sets"
    using assms(2) by (simp add: fifth_def)
  then show ?thesis
    using assms(1) by (simp add: split_feature_sets_def Let_def)
qed

text \<open>
  C1. The claim: after the shuffle the test set is the first \<open>\<lfloor>r\<sqdot>n\<rfloor>\<close> elements, the
  training set is all the remaining ones, and the two sizes add up to \<open>n\<close>. The per-word
  split slices the training set from \<open>sample + 1\<close>: on five records, left in their order
  by the shuffle, the test set is the first record, the training set is the last three,
  and the record at index 1 is in neither.
\<close>

theorem split_feature_sets_loses_boundary:
  "split_feature_sets (\<lambda>xs. xs) [0, 1, 2, 3, 4 :: nat] = ([2, 3, 4], [0])"
  by (simp add: split_feature_sets_def fifth_def)

subsection \<open>The loader\<close>

lemma sense_loop_instances:
  "instances (sense_loop i a ss st) = instances st @ replicate (length ss) a"
  by (induction ss arbitrary: st) (simp_all add: replicate_app_Cons_same)

lemma sense_loop_labels:
  "labels_classes (sense_loop i a ss st) = labels_classes st @ map (\<lambda>s. (inst_word i, s)) ss"
  by (induction ss arbitrary: st) simp_all

lemma sense_loop_heap:
  "a < length (heap st) \<Longrightarrow> ss \<noteq> [] \<Longrightarrow>
   heap (sense_loop i a ss st) = (heap st)[a := (heap st ! a)\<lparr>inst_senses := SenseStr (last ss)\<rparr>]"
proof (induction ss arbitrary: st)
  case Nil
  then show ?case by simp
next
  case (Cons s ss)
  show ?case
  proof (cases "ss = []")
    case True
    then show ?thesis by simp
  next
    case False
    with Cons show ?thesis by simp
  qed
qed

text \<open>
  C2. The claim: an instance with \<open>m\<close> senses is stored \<open>m\<close> times, the \<open>i\<close>-th stored
  instance carrying the \<open>i\<close>-th sense. The loader copies the instance once, before the loop
  over its senses, so all \<open>m\<close> entries are the same object and read as its last sense:
  an instance with senses \<open>A\<close> and \<open>B\<close> is stored twice with sense \<open>B\<close>.
\<close>

theorem loader_aliases_senses:
  "map inst_senses (loaded_instances (load_data
      [[\<lparr>inst_word = ''w-n'', inst_position = 0, inst_context = [(''w'', ''NN'')],
         inst_senses = SenseTuple [''A'', ''B'']\<rparr>]]))
   = [SenseStr ''B'', SenseStr ''B'']"
  by (simp add: load_data_def load_instance_def loaded_instances_def)

subsection \<open>The feature record\<close>

text \<open>
  C8. The co-occurrence vector has one entry per vocabulary entry, and entry \<open>i\<close> is 1 if
  the \<open>i\<close>-th vocabulary entry occurs among the context tokens (the tokens of the left
  window followed by those of the right window) and 0 otherwise; the context tokens
  guitar, player against the vocabulary fishing, player, sound give 0, 1, 0.
\<close>

theorem cooccurrence_bits:
  "length (feat_co_occ (extract_features w l r vocabulary)) = length vocabulary \<and>
   (\<forall>i < length vocabulary.
      feat_co_occ (extract_features w l r vocabulary) ! i =
        (if vocabulary ! i \<in> set (feat_context (extract_features w l r vocabulary)) then 1 else 0)) \<and>
   feat_context (extract_features w l r vocabulary) = map fst l @ map fst r \<and>
   feat_co_occ (extract_features w [(''guitar'', p)] [(''player'', q)]
      [''fishing'', ''player'', ''sound'']) = [0, 1, 0]"
  by (simp add: extract_features_def)

theorem cooccurrence_bits_witness:
  "3 < length [''fishing'', ''big'', ''sound'', ''player'', ''fly'', ''guitar''] \<and>
   feat_co_occ (extract_features ''bass'' [(''guitar'', ''NN''), (''and'', ''CC'')]
      [(''player'', ''NN''), (''stand'', ''VB'')]
      [''fishing'', ''big'', ''sound'', ''player'', ''fly'', ''guitar'']) ! 3 = 1"
  using cooccurrence_bits [of "''bass''" "[(''guitar'', ''NN''), (''and'', ''CC'')]"
      "[(''player'', ''NN''), (''stand'', ''VB'')]"
      "[''fishing'', ''big'', ''sound'', ''player'', ''fly'', ''guitar'']"]
  by simp

subsection \<open>The merged split\<close>

text \<open>
  C3, as claimed: the merged training set is the concatenation of the per-word training
  sets and the merged test set is the concatenation of the per-word test sets. The cell
  concatenates all of them into one list, shuffles it again and splits it anew: with a
  shuffle that leaves the order alone, the merged test set is the first record of the
  per-word training set.
\<close>

theorem merged_split_reshuffles:
  "merged_split (\<lambda>xs. xs) [(''line-n'', [3, 4, 5, 6, 7, 8, 9 :: nat])] [(''line-n'', [0, 1])]
     = ([4, 5, 6, 7, 8, 9, 0, 1], [3]) \<and>
   sub_set [(''line-n'', [3, 4, 5, 6, 7, 8, 9 :: nat])] = [3, 4, 5, 6, 7, 8, 9] \<and>
   sub_set [(''line-n'', [0, 1 :: nat])] = [0, 1]"
  by (simp add: merged_split_def sub_set_def dict_keys_def dict_get_def fifth_def)

text \<open>
  C3, amended: the merged sets are a fresh split of the concatenation of all per-word
  training sets followed by all per-word test sets. Whenever the shuffle returns a
  permutation of that list, the merged test set is the first \<open>\<lfloor>n/5\<rfloor>\<close> elements of the
  shuffled list and the merged training set is the rest: test set followed by training
  set is the shuffled list, and together they hold exactly the records of the per-word
  sets.
\<close>

theorem merged_split_partition:
  assumes "mset (shuffle (sub_set tr @ sub_set te)) = mset (sub_set tr @ sub_set te)"
  shows "snd (merged_split shuffle tr te) @ fst (merged_split shuffle tr te)
           = shuffle (sub_set tr @ sub_set te) \<and>
         length (snd (merged_split shuffle tr te))
           = fifth (length (sub_set tr) + length (sub_set te)) \<and>
         mset (fst (merged_split shuffle tr te)) + mset (snd (merged_split shuffle tr te))
           = mset (sub_set tr) + mset (sub_set te)"
proof -
  let ?total = "shuffle (sub_set tr @ sub_set te)"
  have len: "length ?total = length (sub_set tr) + length (sub_set te)"
    using mset_eq_length [OF assms] by simp
  have parts: "merged_split shuffle tr te
      = (drop (fifth (length ?total)) ?total, take (fifth (length ?total)) ?total)"
    by (simp add: merged_split_def Let_def)
  have "fifth (length ?total) \<le> length ?total"
    by (simp add: fifth_def)
  then have l: "length (take (fifth (length ?total)) ?total) = fifth (length ?total)"
    by simp
  have "mset (drop (fifth (length ?total)) ?total) + mset (take (fifth (length ?total)) ?total)
      = mset ?total"
    by (metis add.commute append_take_drop_id mset_append)
  with assms parts l len show ?thesis
    by simp
qed

theorem merged_split_partition_witness:
  "mset (rev (sub_set [(''hard-a'', [1, 2, 3 :: nat]), (''line-n'', [4, 5])] @ sub_set [(''hard-a'', [6 :: nat])]))
     = mset (sub_set [(''hard-a'', [1, 2, 3 :: nat]), (''line-n'', [4, 5])] @ sub_set [(''hard-a'', [6 :: nat])]) \<and>
   merged_split rev [(''hard-a'', [1, 2, 3 :: nat]), (''line-n'', [4, 5])] [(''hard-a'', [6])]
     = ([5, 4, 3, 2, 1], [6])"
proof -
  have h: "mset (rev (sub_set [(''hard-a'', [1, 2, 3 :: nat]), (''line-n'', [4, 5])] @ sub_set [(''hard-a'', [6 :: nat])]))
     = mset (sub_set [(''hard-a'', [1, 2, 3 :: nat]), (''line-n'', [4, 5])] @ sub_set [(''hard-a'', [6 :: nat])])"
    by simp
  have e: "merged_split rev [(''hard-a'', [1, 2, 3 :: nat]), (''line-n'', [4, 5])] [(''hard-a'', [6])]
     = ([5, 4, 3, 2, 1], [6])"
    by (simp add: merged_split_def sub_set_def dict_keys_def dict_get_def fifth_def)
  show ?thesis
    using h e merged_split_partition [of rev "[(''hard-a'', [1, 2, 3 :: nat]), (''line-n'', [4, 5])]"
        "[(''hard-a'', [6 :: nat])]", OF h]
    by simp
qed

subsection \<open>Tokenising and the context window\<close>

text \<open>
  C6. The claim: \<open>extract_context\<close> returns two sequences on every input, also when the
  context holds tokens that are empty or all whitespace. \<open>tokenize\<close> indexes the first
  piece of every token, and such a token has no piece: the call raises IndexError.
\<close>

theorem extract_context_raises:
  "extract_context 1 [(''a'', ''DT''), (''bass'', ''NN''), ('''', ''NN'')] 2 = Inl IndexError \<and>
   extract_context 1 [(''a'', ''DT''), (''bass'', ''NN''), ('' '', ''NN'')] 2 = Inl IndexError"
  by code_simp

lemma word_char_not_space: "is_word_char c \<Longrightarrow> \<not> is_space_char c"
  by (auto simp: is_word_char_def is_space_char_def Let_def)

lemma first_token:
  "py_get (wordpunct_tokenize t) 0 =
     (if \<forall>c \<in> set t. is_space_char c then Inl IndexError else Inr (leading_run t))"
proof (induction t rule: wordpunct_tokenize.induct)
  case 1
  show ?case by (simp add: py_get_def)
next
  case (2 c cs)
  show ?case
  proof (cases "is_word_char c")
    case True
    then show ?thesis
      using word_char_not_space [of c] by (auto simp: py_get_def leading_run_def)
  next
    case nw: False
    show ?thesis
    proof (cases "is_punct_char c")
      case True
      then show ?thesis
        using nw by (auto simp: py_get_def leading_run_def is_punct_char_def)
    next
      case False
      then have sp: "is_space_char c" using nw by (simp add: is_punct_char_def)
      have "leading_run (c # cs) = leading_run cs"
        using sp by (simp add: leading_run_def)
      then show ?thesis
        using "2.IH"(3) nw False sp by simp
    qed
  qed
qed

lemma tokenize_loop_ok:
  assumes "\<forall>w \<in> set ctxt. \<exists>c \<in> set (fst w). \<not> is_space_char c"
  shows "tokenize_loop acc ctxt =
     Inr (acc @ filter (\<lambda>p. fst p \<noteq> [])
                  (map (\<lambda>w. (translate (lower (leading_run (fst w))), snd w)) ctxt))"
  using assms
proof (induction ctxt arbitrary: acc)
  case Nil
  then show ?case by simp
next
  case (Cons w ctxt)
  from Cons.prems have "\<not> (\<forall>c \<in> set (fst w). is_space_char c)" by simp
  then have "py_get (wordpunct_tokenize (fst w)) 0 = Inr (leading_run (fst w))"
    by (simp only: first_token if_False)
  moreover have "\<forall>w \<in> set ctxt. \<exists>c \<in> set (fst w). \<not> is_space_char c"
    using Cons.prems by simp
  ultimately show ?case
    using Cons.IH by (simp add: Let_def Suc_le_eq)
qed



text \<open>
  C7, as claimed: the normalised token is the whole token, lowercased, without its
  punctuation, and a pair is dropped when that is empty. The code normalises the first
  piece of the token only: \<open>low-and\<close> gives \<open>low\<close>, not \<open>lowand\<close>, and \<open>-abc\<close> is dropped
  although \<open>abc\<close> is not empty.
\<close>

theorem tokenize_first_piece_only:
  "tokenize [(''low-and'', ''JJ''), (''-abc'', ''NN'')] = Inr [(''low'', ''JJ'')] \<and>
   translate (lower ''low-and'') = ''lowand'' \<and> translate (lower ''-abc'') = ''abc''"
  by code_simp

text \<open>
  C7, amended: for a context whose tokens are ASCII and each hold at least one character
  that is not whitespace, \<open>tokenize\<close> returns normally; the normalised token of a pair is
  the leading run of its token, lowercased, without its punctuation; the pair is dropped
  exactly when that is empty, and the part-of-speech tags and the order of the pairs are
  kept. The quote artefacts are dropped because all their characters are punctuation.
\<close>

theorem tokenize_keeps_leading_run:
  assumes "\<forall>w \<in> set ctxt. is_ascii (fst w) \<and> (\<exists>c \<in> set (fst w). \<not> is_space_char c)"
  shows "tokenize ctxt =
     Inr (filter (\<lambda>p. fst p \<noteq> [])
            (map (\<lambda>w. (translate (lower (leading_run (fst w))), snd w)) ctxt))"
proof -
  from assms have "\<forall>w \<in> set ctxt. \<exists>c \<in> set (fst w). \<not> is_space_char c"
    by blast
  from tokenize_loop_ok [OF this, of "[]"] show ?thesis
    by (simp add: tokenize_def)
qed

theorem tokenize_keeps_leading_run_witness:
  "tokenize [(''Low-and'', ''JJ''), (''``'', ''``''), (''a_B!'', ''X'')]
     = Inr [(''low'', ''JJ''), (''ab'', ''X'')]"
proof -
  have h: "\<forall>w \<in> set [(''Low-and'', ''JJ''), (''``'', ''``''), (''a_B!'', ''X'')].
      is_ascii (fst w) \<and> (\<exists>c \<in> set (fst w). \<not> is_space_char c)"
    by (simp add: is_space_char_def is_ascii_def)
  have e: "filter (\<lambda>p. fst p \<noteq> [])
            (map (\<lambda>w. (translate (lower (leading_run (fst w))), snd w)) [(''Low-and'', ''JJ''), (''``'', ''``''), (''a_B!'', ''X'')]) = [(''low'', ''JJ''), (''ab'', ''X'')]"
    by code_simp
  show ?thesis
    using tokenize_keeps_leading_run [OF h] e by simp
qed


subsection \<open>The word of a feature record\<close>

text \<open>
  C4, as claimed: the word of a feature record is the lemma portion of the instance's
  target word. The feature-set loop passes the token found at the target position of the
  context, not the target word: for an instance of \<open>line-n\<close> whose sentence has \<open>lines\<close>
  at the target position the word of the record is \<open>lines\<close>, while the lemma portion of
  the target word is \<open>line\<close>.
\<close>

theorem feature_word_not_lemma:
  "feature_sets_loop 2 [(''line-n'', [''telephone''])] (''line-n'', ''phone'') []
      [\<lparr>inst_word = ''line-n'', inst_position = 1,
        inst_context = [(''telephone'', ''NN''), (''lines'', ''NNS'')],
        inst_senses = SenseStr ''phone''\<rparr>]
     = Inr [(\<lparr>feat_word = ''lines'', feat_co_occ = [1], feat_context = [''telephone''],
              feat_pos_context = [''NN'']\<rparr>, (''line-n'', ''phone''))] \<and>
   lemma_portion ''line-n'' = ''line''"
  by code_simp

lemma feature_sets_loop_records:
  assumes "feature_sets_loop context co label acc insts = Inr fs"
  shows "\<exists>new. fs = acc @ new \<and>
     list_all2 (\<lambda>f inst. \<exists>tok. py_get (inst_context inst) (inst_position inst) = Inr tok \<and>
                  feat_word (fst f) = takeWhile (\<lambda>c. c \<noteq> CHR ''.'') (fst tok) \<and> snd f = label)
       new (filter (selects label) insts)"
  using assms
proof (induction insts arbitrary: acc)
  case Nil
  then show ?case by simp
next
  case (Cons inst insts)
  show ?case
  proof (cases "selects label inst")
    case False
    with Cons.prems have "feature_sets_loop context co label acc insts = Inr fs"
      by simp
    from Cons.IH [OF this] False show ?thesis by simp
  next
    case True
    from Cons.prems True obtain tok left right where
      tok: "py_get (inst_context inst) (inst_position inst) = Inr tok" and
      rest: "feature_sets_loop context co label
               (acc @ [(extract_features (fst tok) left right (dict_get co (fst label)), label)]) insts
             = Inr fs"
      by (auto simp: Let_def split: sum.splits)
    from Cons.IH [OF rest] obtain new where
      new: "fs = (acc @ [(extract_features (fst tok) left right (dict_get co (fst label)), label)]) @ new"
        "list_all2 (\<lambda>f inst. \<exists>tok. py_get (inst_context inst) (inst_position inst) = Inr tok \<and>
                  feat_word (fst f) = takeWhile (\<lambda>c. c \<noteq> CHR ''.'') (fst tok) \<and> snd f = label)
          new (filter (selects label) insts)"
      by blast
    have "feat_word (extract_features (fst tok) left right (dict_get co (fst label)))
        = takeWhile (\<lambda>c. c \<noteq> CHR ''.'') (fst tok)"
      by (simp add: extract_features_def split_dot_first_def)
    with new tok True show ?thesis
      by (intro exI [of _ "(extract_features (fst tok) left right (dict_get co (fst label)), label) # new"])
         (cases tok, simp)
  qed
qed

text \<open>
  C4, amended: the feature records of a label correspond, in order, to the instances the
  label selects, and the word of each record is the token at the target position of the
  instance's context, cut at its first dot (the whole token when it has no dot).
\<close>

theorem feature_word_is_surface_token:
  assumes "feature_sets_loop context co label [] insts = Inr fs"
  shows "list_all2 (\<lambda>f inst. \<exists>tok. py_get (inst_context inst) (inst_position inst) = Inr tok \<and>
                  feat_word (fst f) = takeWhile (\<lambda>c. c \<noteq> CHR ''.'') (fst tok))
       fs (filter (selects label) insts)"
proof -
  from feature_sets_loop_records [OF assms]
  have "list_all2 (\<lambda>f inst. \<exists>tok. py_get (inst_context inst) (inst_position inst) = Inr tok \<and>
                  feat_word (fst f) = takeWhile (\<lambda>c. c \<noteq> CHR ''.'') (fst tok) \<and> snd f = label)
       fs (filter (selects label) insts)"
    by simp
  then show ?thesis
    by (rule list_all2_mono) blast
qed

theorem feature_word_is_surface_token_witness:
  "list_all2 (\<lambda>f inst. \<exists>tok. py_get (inst_context inst) (inst_position inst) = Inr tok \<and>
                  feat_word (fst f) = takeWhile (\<lambda>c. c \<noteq> CHR ''.'') (fst tok))
     [(\<lparr>feat_word = ''hard'', feat_co_occ = [1, 0], feat_context = [''a'', ''time''],
              feat_pos_context = [''DT'', ''NN'']\<rparr>, (''hard-a'', ''HARD1''))]
     (filter (selects (''hard-a'', ''HARD1''))
      [\<lparr>inst_word = ''hard-a'', inst_position = 1,
        inst_context = [(''a'', ''DT''), (''hard'', ''JJ''), (''time'', ''NN'')],
        inst_senses = SenseStr ''HARD1''\<rparr>])"
proof -
  have e: "feature_sets_loop 2 [(''hard-a'', [''time'', ''find''])] (''hard-a'', ''HARD1'') []
      [\<lparr>inst_word = ''hard-a'', inst_position = 1,
        inst_context = [(''a'', ''DT''), (''hard'', ''JJ''), (''time'', ''NN'')],
        inst_senses = SenseStr ''HARD1''\<rparr>]
     = Inr [(\<lparr>feat_word = ''hard'', feat_co_occ = [1, 0], feat_context = [''a'', ''time''],
              feat_pos_context = [''DT'', ''NN'']\<rparr>, (''hard-a'', ''HARD1''))]"
    by code_simp
  show ?thesis
    by (rule feature_word_is_surface_token [OF e])
qed

subsection \<open>Matching the sense of a label\<close>

lemma str_contains_sublist: "str_contains b a \<longleftrightarrow> sublist a b"
  by (induction b) (simp_all add: sublist_Cons_right)

lemma sense_loop_strings:
  assumes "\<forall>a \<in> set (instances st). a < length (heap st) \<and>
             (\<exists>t. inst_senses (heap st ! a) = SenseStr t)"
    and "temp < length (heap st)"
  shows "\<forall>a \<in> set (instances (sense_loop i temp ss st)).
           a < length (heap (sense_loop i temp ss st)) \<and>
           (\<exists>t. inst_senses (heap (sense_loop i temp ss st) ! a) = SenseStr t)"
  using assms
proof (induction ss arbitrary: st)
  case Nil
  then show ?case by simp
next
  case (Cons s ss)
  let ?st = "st\<lparr>heap := (heap st)[temp := (heap st ! temp)\<lparr>inst_senses := SenseStr s\<rparr>],
                instances := instances st @ [temp],
                labels_classes := labels_classes st @ [(inst_word i, s)]\<rparr>"
  have inv: "\<forall>a \<in> set (instances ?st). a < length (heap ?st) \<and>
               (\<exists>t. inst_senses (heap ?st ! a) = SenseStr t)"
    using Cons.prems by (auto simp: nth_list_update)
  have "temp < length (heap ?st)"
    using Cons.prems by simp
  with inv show ?case
    unfolding sense_loop.simps by (rule Cons.IH)
qed

lemma load_instance_strings:
  assumes "\<forall>a \<in> set (instances st). a < length (heap st) \<and>
             (\<exists>t. inst_senses (heap st ! a) = SenseStr t)"
  shows "\<forall>a \<in> set (instances (load_instance i st)).
           a < length (heap (load_instance i st)) \<and>
           (\<exists>t. inst_senses (heap (load_instance i st) ! a) = SenseStr t)"
  unfolding load_instance_def Let_def
  by (rule sense_loop_strings) (use assms in \<open>auto simp: nth_append\<close>)

lemma load_file_strings:
  assumes "\<forall>a \<in> set (instances st). a < length (heap st) \<and>
             (\<exists>t. inst_senses (heap st ! a) = SenseStr t)"
  shows "\<forall>a \<in> set (instances (load_file insts st)).
           a < length (heap (load_file insts st)) \<and>
           (\<exists>t. inst_senses (heap (load_file insts st) ! a) = SenseStr t)"
  using assms
proof (induction insts arbitrary: st)
  case Nil
  then show ?case by simp
next
  case (Cons i insts)
  show ?case
    unfolding load_file.simps
    by (rule Cons.IH) (rule load_instance_strings [OF Cons.prems])
qed

lemma load_files_strings:
  assumes "\<forall>a \<in> set (instances st). a < length (heap st) \<and>
             (\<exists>t. inst_senses (heap st ! a) = SenseStr t)"
  shows "\<forall>a \<in> set (instances (load_files corpus st)).
           a < length (heap (load_files corpus st)) \<and>
           (\<exists>t. inst_senses (heap (load_files corpus st) ! a) = SenseStr t)"
  using assms
proof (induction corpus arbitrary: st)
  case Nil
  then show ?case by simp
next
  case (Cons insts corpus)
  show ?case
    unfolding load_files.simps
    by (rule Cons.IH) (rule load_file_strings [OF Cons.prems])
qed

lemma loaded_instances_strings:
  assumes "inst \<in> set (loaded_instances (load_data files_list))"
  shows "\<exists>t. inst_senses inst = SenseStr t"
proof -
  have "\<forall>a \<in> set (instances (load_data files_list)).
           a < length (heap (load_data files_list)) \<and>
           (\<exists>t. inst_senses (heap (load_data files_list) ! a) = SenseStr t)"
    unfolding load_data_def by (rule load_files_strings) simp
  with assms show ?thesis
    by (auto simp: loaded_instances_def)
qed

lemma feature_sets_loop_assigned:
  assumes "feature_sets_loop context co label acc insts = Inr fs"
  shows "\<exists>new. fs = acc @ new \<and>
     list_all2 (is_record_of context co label) new (filter (selects label) insts)"
  using assms
proof (induction insts arbitrary: acc)
  case Nil
  then show ?case by simp
next
  case (Cons inst insts)
  show ?case
  proof (cases "selects label inst")
    case False
    with Cons.prems have "feature_sets_loop context co label acc insts = Inr fs"
      by simp
    from Cons.IH [OF this] False show ?thesis by simp
  next
    case True
    from Cons.prems True obtain tok left right where
      tok: "py_get (inst_context inst) (inst_position inst) = Inr tok" and
      win: "extract_context (inst_position inst) (inst_context inst) context = Inr (left, right)" and
      rest: "feature_sets_loop context co label
               (acc @ [(extract_features (fst tok) left right (dict_get co (fst label)), label)]) insts
             = Inr fs"
      by (auto simp: Let_def split: sum.splits)
    from Cons.IH [OF rest] obtain new where
      new: "fs = (acc @ [(extract_features (fst tok) left right (dict_get co (fst label)), label)]) @ new"
        "list_all2 (is_record_of context co label) new (filter (selects label) insts)"
      by blast
    have "is_record_of context co label
            (extract_features (fst tok) left right (dict_get co (fst label)), label) inst"
      unfolding is_record_of_def using tok win by simp
    with new True show ?thesis
      by (intro exI [of _ "(extract_features (fst tok) left right (dict_get co (fst label)), label) # new"])
         simp
  qed
qed

lemma list_all2_each:
  assumes "list_all2 P xs ys" and "y \<in> set ys"
  shows "\<exists>x \<in> set xs. P x y"
  using assms by (induction rule: list_all2_induct) auto

text \<open>
  C10. Every instance the loader has stored holds its sense as a string. The feature
  sets built for a label \<open>(w, s)\<close> hold, in order, one record for each stored instance
  whose word is \<open>w\<close> and whose sense string contains \<open>s\<close> as a contiguous run, and no
  other record. Hence every stored instance of word \<open>w\<close> and of a sense \<open>t\<close> that contains
  \<open>s\<close>, a longer sense id included, has its record among the feature sets of \<open>(w, s)\<close>.
  The contexts are ASCII.
\<close>

theorem sense_matching_is_containment:
  assumes "feature_sets_loop context co (w, s) [] (loaded_instances (load_data files_list))
             = Inr fs"
    and "\<forall>inst \<in> set (loaded_instances (load_data files_list)).
           ascii_context (inst_context inst)"
  shows "(\<forall>inst \<in> set (loaded_instances (load_data files_list)).
            \<exists>t. inst_senses inst = SenseStr t) \<and>
         list_all2 (is_record_of context co (w, s)) fs
           (filter (\<lambda>inst. inst_word inst = w \<and>
                            (\<exists>t. inst_senses inst = SenseStr t \<and> sublist s t))
              (loaded_instances (load_data files_list))) \<and>
         (\<forall>inst \<in> set (loaded_instances (load_data files_list)). \<forall>t.
            inst_word inst = w \<and> inst_senses inst = SenseStr t \<and> sublist s t \<longrightarrow>
            (\<exists>f \<in> set fs. is_record_of context co (w, s) f inst))"
proof -
  let ?insts = "loaded_instances (load_data files_list)"
  let ?P = "\<lambda>inst. inst_word inst = w \<and> (\<exists>t. inst_senses inst = SenseStr t \<and> sublist s t)"
  have strings: "\<forall>inst \<in> set ?insts. \<exists>t. inst_senses inst = SenseStr t"
    using loaded_instances_strings by blast
  have "filter (selects (w, s)) ?insts = filter ?P ?insts"
  proof (rule filter_cong [OF refl])
    fix inst
    assume "inst \<in> set ?insts"
    with strings obtain t where "inst_senses inst = SenseStr t" by blast
    then show "selects (w, s) inst = ?P inst"
      by (auto simp: selects_def str_contains_sublist)
  qed
  with feature_sets_loop_assigned [OF assms(1)]
  have all2: "list_all2 (is_record_of context co (w, s)) fs (filter ?P ?insts)"
    by simp
  have each: "\<forall>inst \<in> set ?insts. \<forall>t.
            inst_word inst = w \<and> inst_senses inst = SenseStr t \<and> sublist s t \<longrightarrow>
            (\<exists>f \<in> set fs. is_record_of context co (w, s) f inst)"
  proof (intro ballI allI impI)
    fix inst t
    assume "inst \<in> set ?insts"
      and "inst_word inst = w \<and> inst_senses inst = SenseStr t \<and> sublist s t"
    then have "inst \<in> set (filter ?P ?insts)" by auto
    with all2 show "\<exists>f \<in> set fs. is_record_of context co (w, s) f inst"
      by (rule list_all2_each)
  qed
  from strings all2 each show ?thesis
    by (intro conjI)
qed

theorem sense_matching_is_containment_witness:
  "feature_sets_loop 2 [(''serve-v'', [''dinner''])] (''serve-v'', ''SERVE1'') []
     (loaded_instances (load_data
        [[\<lparr>inst_word = ''serve-v'', inst_position = 1,
           inst_context = [(''she'', ''PRP''), (''serves'', ''VBZ''), (''dinner'', ''NN'')],
           inst_senses = SenseTuple [''SERVE10'']\<rparr>,
          \<lparr>inst_word = ''serve-v'', inst_position = 1,
           inst_context = [(''it'', ''PRP''), (''served'', ''VBD''), (''well'', ''RB'')],
           inst_senses = SenseTuple [''SERVE2'']\<rparr>]]))
     = Inr [(\<lparr>feat_word = ''serves'', feat_co_occ = [1], feat_context = [''she'', ''dinner''],
              feat_pos_context = [''PRP'', ''NN'']\<rparr>, (''serve-v'', ''SERVE1''))] \<and>
   list_all2 (is_record_of 2 [(''serve-v'', [''dinner''])] (''serve-v'', ''SERVE1''))
     [(\<lparr>feat_word = ''serves'', feat_co_occ = [1], feat_context = [''she'', ''dinner''],
              feat_pos_context = [''PRP'', ''NN'']\<rparr>, (''serve-v'', ''SERVE1''))]
     (filter (\<lambda>inst. inst_word inst = ''serve-v'' \<and>
                      (\<exists>t. inst_senses inst = SenseStr t \<and> sublist ''SERVE1'' t))
        (loaded_instances (load_data
           [[\<lparr>inst_word = ''serve-v'', inst_position = 1,
              inst_context = [(''she'', ''PRP''), (''serves'', ''VBZ''), (''dinner'', ''NN'')],
              inst_senses = SenseTuple [''SERVE10'']\<rparr>,
             \<lparr>inst_word = ''serve-v'', inst_position = 1,
              inst_context = [(''it'', ''PRP''), (''served'', ''VBD''), (''well'', ''RB'')],
              inst_senses = SenseTuple [''SERVE2'']\<rparr>]])))"
proof -
  have l: "loaded_instances (load_data
        [[\<lparr>inst_word = ''serve-v'', inst_position = 1,
           inst_context = [(''she'', ''PRP''), (''serves'', ''VBZ''), (''dinner'', ''NN'')],
           inst_senses = SenseTuple [''SERVE10'']\<rparr>,
          \<lparr>inst_word = ''serve-v'', inst_position = 1,
           inst_context = [(''it'', ''PRP''), (''served'', ''VBD''), (''well'', ''RB'')],
           inst_senses = SenseTuple [''SERVE2'']\<rparr>]])
    = [\<lparr>inst_word = ''serve-v'', inst_position = 1,
        inst_context = [(''she'', ''PRP''), (''serves'', ''VBZ''), (''dinner'', ''NN'')],
        inst_senses = SenseStr ''SERVE10''\<rparr>,
       \<lparr>inst_word = ''serve-v'', inst_position = 1,
        inst_context = [(''it'', ''PRP''), (''served'', ''VBD''), (''well'', ''RB'')],
        inst_senses = SenseStr ''SERVE2''\<rparr>]"
    by (simp add: load_data_def load_instance_def loaded_instances_def)
  have r: "feature_sets_loop 2 [(''serve-v'', [''dinner''])] (''serve-v'', ''SERVE1'') []
      [\<lparr>inst_word = ''serve-v'', inst_position = 1,
        inst_context = [(''she'', ''PRP''), (''serves'', ''VBZ''), (''dinner'', ''NN'')],
        inst_senses = SenseStr ''SERVE10''\<rparr>,
       \<lparr>inst_word = ''serve-v'', inst_position = 1,
        inst_context = [(''it'', ''PRP''), (''served'', ''VBD''), (''well'', ''RB'')],
        inst_senses = SenseStr ''SERVE2''\<rparr>]
     = Inr [(\<lparr>feat_word = ''serves'', feat_co_occ = [1], feat_context = [''she'', ''dinner''],
              feat_pos_context = [''PRP'', ''NN'']\<rparr>, (''serve-v'', ''SERVE1''))]"
    by code_simp
  have e: "feature_sets_loop 2 [(''serve-v'', [''dinner''])] (''serve-v'', ''SERVE1'') []
     (loaded_instances (load_data
        [[\<lparr>inst_word = ''serve-v'', inst_position = 1,
           inst_context = [(''she'', ''PRP''), (''serves'', ''VBZ''), (''dinner'', ''NN'')],
           inst_senses = SenseTuple [''SERVE10'']\<rparr>,
          \<lparr>inst_word = ''serve-v'', inst_position = 1,
           inst_context = [(''it'', ''PRP''), (''served'', ''VBD''), (''well'', ''RB'')],
           inst_senses = SenseTuple [''SERVE2'']\<rparr>]]))
     = Inr [(\<lparr>feat_word = ''serves'', feat_co_occ = [1], feat_context = [''she'', ''dinner''],
              feat_pos_context = [''PRP'', ''NN'']\<rparr>, (''serve-v'', ''SERVE1''))]"
    by (simp only: l r)
  have h: "\<forall>inst \<in> set (loaded_instances (load_data
        [[\<lparr>inst_word = ''serve-v'', inst_position = 1,
           inst_context = [(''she'', ''PRP''), (''serves'', ''VBZ''), (''dinner'', ''NN'')],
           inst_senses = SenseTuple [''SERVE10'']\<rparr>,
          \<lparr>inst_word = ''serve-v'', inst_position = 1,
           inst_context = [(''it'', ''PRP''), (''served'', ''VBD''), (''well'', ''RB'')],
           inst_senses = SenseTuple [''SERVE2'']\<rparr>]])).
        ascii_context (inst_context inst)"
    unfolding l by (simp add: ascii_context_def is_ascii_def)
  from sense_matching_is_containment [OF e h] e show ?thesis
    by blast
qed

subsection \<open>The co-occurrence vocabulary\<close>





























end
